theory Spec2Isabelle
  imports Main "HOL-Library.Word"
begin

section \<open>JavaScript values\<close>

text \<open>
  The plugin works on schema-less documents and on option objects whose fields may be
  absent. A number is \<open>NaN\<close> or an integer of magnitude at most \<open>2^53\<close>, the range in
  which a double holds every integer (fractional, infinite and larger numbers are
  outside the model). A document value is a scalar, an object with its own data
  properties in enumeration order, or a value the model does not look into (an array, a
  function, ...), told apart by a number. What a value offers beyond an object's own
  data properties (inherited properties, the \<open>length\<close> of a string, the elements of an
  array) is not fixed by the model: it is a parameter of every function that reads
  properties. \<open>JUndefined\<close> is what reading an array slot out of range gives.
\<close>

datatype jsnum = NaN | Fin int

datatype jsval =
    JUndefined
  | JNull
  | JBool bool
  | JNum jsnum
  | JStr string
  | JDate int
  | JObjectId string
  | JObject "(string \<times> jsval) list"
  | JOther nat

datatype js_error = TypeError | MalformedCursor | StoreError

text \<open>Truthiness of an optional string (\<open>options.next\<close>, \<open>options.previous\<close>):
  \<open>undefined\<close> and the empty string are falsy.\<close>

definition truthy_str :: "string option \<Rightarrow> bool" where
  "truthy_str s = (case s of None \<Rightarrow> False | Some t \<Rightarrow> t \<noteq> [])"

text \<open>Truthiness of an optional number (\<open>options.limit\<close>, \<open>defaultLimit\<close>):
  \<open>undefined\<close>, \<open>NaN\<close> and \<open>0\<close> are falsy.\<close>

definition truthy_num :: "jsnum option \<Rightarrow> bool" where
  "truthy_num x = (case x of Some (Fin n) \<Rightarrow> n \<noteq> 0 | _ \<Rightarrow> False)"

text \<open>Truthiness of an optional boolean flag.\<close>

definition truthy_flag :: "bool option \<Rightarrow> bool" where
  "truthy_flag b = (b = Some True)"

text \<open>\<open>len > x\<close> for an array length and an optional number: a comparison with
  \<open>undefined\<close> or \<open>NaN\<close> is false.\<close>

definition length_gt :: "nat \<Rightarrow> jsnum option \<Rightarrow> bool" where
  "length_gt len x = (case x of Some (Fin n) \<Rightarrow> n < int len | _ \<Rightarrow> False)"

text \<open>\<open>docs[i]\<close>: an index outside the array reads \<open>undefined\<close>.\<close>

definition index_js :: "jsval list \<Rightarrow> int \<Rightarrow> jsval" where
  "index_js xs i = (if 0 \<le> i \<and> i < int (length xs) then xs ! nat i else JUndefined)"

text \<open>The own data property \<open>p\<close> of a value, if it has one.\<close>

fun own_prop :: "jsval \<Rightarrow> string \<Rightarrow> jsval option" where
  "own_prop (JObject fs) p = map_of fs p"
| "own_prop _ p = None"

text \<open>\<open>val[p]\<close> on a value that is neither \<open>undefined\<close> nor \<open>null\<close>: the own property
  where there is one, and otherwise what the runtime finds along the prototype chain or
  among the built-in properties of the value, given by the parameter \<open>inherited\<close>.\<close>

definition read_prop :: "(jsval \<Rightarrow> string \<Rightarrow> jsval) \<Rightarrow> jsval \<Rightarrow> string \<Rightarrow> jsval" where
  "read_prop inherited v p = (case own_prop v p of None \<Rightarrow> inherited v p | Some x \<Rightarrow> x)"

text \<open>\<open>doc._id\<close> and the like: reading a property of \<open>undefined\<close> or \<open>null\<close> throws a
  TypeError.\<close>

definition nullish :: "jsval \<Rightarrow> bool" where
  "nullish v = (v = JUndefined \<or> v = JNull)"

definition get_prop ::
  "(jsval \<Rightarrow> string \<Rightarrow> jsval) \<Rightarrow> jsval \<Rightarrow> string \<Rightarrow> js_error + jsval" where
  "get_prop inherited v p =
     (if nullish v then Inl TypeError else Inr (read_prop inherited v p))"

text \<open>\<open>key.split('.')\<close>: the pieces between the dots; the empty string gives one
  empty piece.\<close>

fun split_dot :: "string \<Rightarrow> string list" where
  "split_dot [] = [[]]"
| "split_dot (c # cs) =
     (if c = CHR ''.'' then [] # split_dot cs
      else (case split_dot cs of [] \<Rightarrow> [[c]] | w # ws \<Rightarrow> (c # w) # ws))"

text \<open>Ramda's \<open>R.path(pathArray, obj)\<close> for string path elements: follow the properties
  one by one; as soon as the value in hand is \<open>undefined\<close> or \<open>null\<close> while path elements
  remain, the result is \<open>undefined\<close>.\<close>

fun path :: "(jsval \<Rightarrow> string \<Rightarrow> jsval) \<Rightarrow> string list \<Rightarrow> jsval \<Rightarrow> jsval" where
  "path inherited [] v = v"
| "path inherited (p # ps) v =
     (if nullish v then JUndefined else path inherited ps (read_prop inherited v p))"

section \<open>Pagination options and result (types.ts)\<close>

text \<open>\<open>sortOptions\<close> is an object from field paths to directions; it is kept as the list
  of its entries in \<open>Object.keys\<close> order.\<close>

type_synonym sort_options = "(string \<times> int) list"

record paginate_options =
  limit :: "jsnum option"
  sortOptions :: "sort_options option"
  opt_next :: "string option"
  opt_previous :: "string option"

record paginate_result =
  docs :: "jsval list"
  hasPrevious :: bool
  hasNext :: bool
  res_next :: "string option"
  res_previous :: "string option"
  totalDocs :: "nat option"

section \<open>Page assembly (response.ts)\<close>

text \<open>The array \<open>[...values, doc._id]\<close> that \<open>prepareCursor\<close> hands to the encoder, for
  a document that is neither \<open>undefined\<close> nor \<open>null\<close>.\<close>

definition keysExceptId :: "sort_options \<Rightarrow> string list" where
  "keysExceptId so = filter (\<lambda>key. key \<noteq> ''_id'') (map fst so)"

definition cursor_values ::
  "(jsval \<Rightarrow> string \<Rightarrow> jsval) \<Rightarrow> jsval \<Rightarrow> sort_options \<Rightarrow> jsval list" where
  "cursor_values inherited doc so =
     map (\<lambda>key. path inherited (split_dot key) doc) (keysExceptId so)
       @ [read_prop inherited doc ''_id'']"

text \<open>\<open>prepareCursor(doc, sortOptions = {})\<close>. The encoder of
  \<open>utils/bsonUrlEncoding\<close> is a parameter. \<open>R.path\<close> tolerates a missing document, the
  read of \<open>doc._id\<close> does not.\<close>

definition prepareCursor ::
  "(jsval list \<Rightarrow> string) \<Rightarrow> (jsval \<Rightarrow> string \<Rightarrow> jsval) \<Rightarrow> jsval \<Rightarrow> sort_options option
     \<Rightarrow> js_error + string" where
  "prepareCursor enc inherited doc so_opt =
     (let so = (case so_opt of None \<Rightarrow> [] | Some so \<Rightarrow> so) in
      case get_prop inherited doc ''_id'' of
        Inl e \<Rightarrow> Inl e
      | Inr _ \<Rightarrow> Inr (enc (cursor_values inherited doc so)))"

text \<open>\<open>prepareResponse(_docs, options, totalDocs)\<close>. \<open>pop\<close> and \<open>reverse\<close> work in place
  on the array the caller passed and \<open>docs\<close> is that same array, so the model returns
  the array as the call leaves it, next to the result or the error thrown. \<open>hasMore\<close> is
  only ever tested for truthiness. \<open>pop\<close> on an empty array removes nothing.\<close>

definition prepareResponse ::
  "(jsval list \<Rightarrow> string) \<Rightarrow> (jsval \<Rightarrow> string \<Rightarrow> jsval) \<Rightarrow> jsval list
     \<Rightarrow> paginate_options \<Rightarrow> nat option
     \<Rightarrow> jsval list \<times> (js_error + paginate_result)" where
  "prepareResponse enc inherited batch options total_opt =
     (let hasMore = (truthy_num (limit options) \<and> length_gt (length batch) (limit options));
          popped = (if hasMore then butlast batch else batch);
          ds = (if truthy_str (opt_previous options) then rev popped else popped);
          hasPrev = (truthy_str (opt_next options)
                      \<or> (truthy_str (opt_previous options) \<and> hasMore));
          hasNxt = (truthy_str (opt_previous options) \<or> hasMore);
          nxt = (if hasNxt
                 then map_sum id Some
                        (prepareCursor enc inherited (index_js ds (int (length ds) - 1))
                           (sortOptions options))
                 else Inr None);
          prv = (if hasPrev
                 then map_sum id Some
                        (prepareCursor enc inherited (index_js ds 0) (sortOptions options))
                 else Inr None)
      in (ds,
          case nxt of
            Inl e \<Rightarrow> Inl e
          | Inr n \<Rightarrow>
              (case prv of
                 Inl e \<Rightarrow> Inl e
               | Inr p \<Rightarrow>
                   Inr \<lparr>docs = ds, hasPrevious = hasPrev, hasNext = hasNxt,
                        res_next = n, res_previous = p, totalDocs = total_opt\<rparr>)))"

section \<open>The plugin's operations (index.ts)\<close>

record plugin_options =
  dontReturnTotalDocs :: "bool option"
  dontAllowUnlimitedResults :: "bool option"
  defaultLimit :: "jsnum option"

text \<open>\<open>pluginOptions && pluginOptions.flag\<close>, tested for truthiness.\<close>

definition plugin_flag ::
  "(plugin_options \<Rightarrow> bool option) \<Rightarrow> plugin_options option \<Rightarrow> bool" where
  "plugin_flag flag po = (case po of None \<Rightarrow> False | Some p \<Rightarrow> truthy_flag (flag p))"

text \<open>\<open>pluginOptions && pluginOptions.defaultLimit ? pluginOptions.defaultLimit : 10\<close>\<close>

definition defaultLimit_of :: "plugin_options option \<Rightarrow> jsnum" where
  "defaultLimit_of po =
     (case po of
        None \<Rightarrow> Fin 10
      | Some p \<Rightarrow>
          (case defaultLimit p of
             Some (Fin n) \<Rightarrow> (if n \<noteq> 0 then Fin n else Fin 10)
           | _ \<Rightarrow> Fin 10))"

text \<open>\<open>isNaN(x)\<close>, \<open>x < 0\<close>, \<open>x === 0\<close> and \<open>x + 1\<close> on a number that may be
  \<open>undefined\<close>: \<open>undefined\<close> converts to \<open>NaN\<close>, which compares false and absorbs
  addition. The sum is a double: below \<open>2^53 = 9007199254740992\<close> it is exact, and
  \<open>2^53 + 1\<close> rounds back to \<open>2^53\<close>.\<close>

definition js_isNaN :: "jsnum option \<Rightarrow> bool" where
  "js_isNaN x = (case x of Some (Fin n) \<Rightarrow> False | _ \<Rightarrow> True)"

definition js_negative :: "jsnum option \<Rightarrow> bool" where
  "js_negative x = (case x of Some (Fin n) \<Rightarrow> n < 0 | _ \<Rightarrow> False)"

definition js_is_zero :: "jsnum option \<Rightarrow> bool" where
  "js_is_zero x = (x = Some (Fin 0))"

definition js_plus_one :: "jsnum option \<Rightarrow> jsnum" where
  "js_plus_one x =
     (case x of
        Some (Fin n) \<Rightarrow> (if n < 9007199254740992 then Fin (n + 1) else Fin n)
      | _ \<Rightarrow> NaN)"

definition useDefaultLimit :: "plugin_options option \<Rightarrow> jsnum option \<Rightarrow> bool" where
  "useDefaultLimit po l =
     (js_isNaN l \<or> js_negative l
        \<or> (js_is_zero l \<and> plugin_flag dontAllowUnlimitedResults po))"

definition unlimited :: "plugin_options option \<Rightarrow> jsnum option \<Rightarrow> bool" where
  "unlimited po l = (js_is_zero l \<and> \<not> plugin_flag dontAllowUnlimitedResults po)"

text \<open>\<open>generateCursorQuery\<close> and \<open>generateSort\<close> of \<open>query.ts\<close> are parameters; a query
  object is the list of its entries. Either may throw.\<close>

type_synonym query_object = "(string \<times> jsval) list"

record query_module =
  generateCursorQuery :: "paginate_options \<Rightarrow> js_error + query_object"
  generateSort :: "paginate_options \<Rightarrow> js_error + sort_options"

text \<open>What the operations ask of the model (the store). A find request is
  \<open>find({$and: [cursorQuery, _query || {}]}, _projection).sort(sort).limit(n).populate(_populate || [])\<close>;
  an aggregation is the list of its stages.\<close>

record find_request =
  fr_cursor_query :: query_object
  fr_query :: query_object
  fr_projection :: "jsval option"
  fr_sort :: sort_options
  fr_limit :: jsnum
  fr_populate :: "jsval list"

datatype stage =
    SortStage sort_options
  | PipelineStage jsval
  | MatchStage query_object
  | LimitStage jsnum
  | CountStage string
  | FacetStage "stage list" "stage list"

datatype store_call =
    Find find_request
  | CountDocuments "query_object option"
  | Aggregate "stage list"

text \<open>The reply to the faceted aggregation, as the source types it: the \<open>results\<close>
  branch and the \<open>totalCount\<close> branch, whose elements are the \<open>count\<close> fields.\<close>

record facet_reply =
  results :: "jsval list"
  totalCount :: "nat list"

record store =
  find_exec :: "find_request \<Rightarrow> js_error + jsval list"
  countDocuments_exec :: "query_object option \<Rightarrow> js_error + nat"
  aggregate_exec :: "stage list \<Rightarrow> js_error + jsval list"
  facet_exec :: "stage list \<Rightarrow> js_error + facet_reply"

text \<open>\<open>findPaged(options, _query, _projection, _populate)\<close>: the store calls made, in
  order, and the result or the error. \<open>options.limit\<close> is overwritten before the cursor
  query is generated.\<close>

definition findPaged ::
  "(jsval list \<Rightarrow> string) \<Rightarrow> (jsval \<Rightarrow> string \<Rightarrow> jsval) \<Rightarrow> query_module \<Rightarrow> store
     \<Rightarrow> plugin_options option
     \<Rightarrow> paginate_options \<Rightarrow> query_object option \<Rightarrow> jsval option \<Rightarrow> jsval list option
     \<Rightarrow> store_call list \<times> (js_error + paginate_result)" where
  "findPaged enc inherited qm st po options qry proj pop =
     (case generateSort qm options of
        Inl e \<Rightarrow> ([], Inl e)
      | Inr srt \<Rightarrow>
          (let dflt = defaultLimit_of po;
               useDflt = useDefaultLimit po (limit options);
               unl = unlimited po (limit options);
               options' = options\<lparr>limit := (if useDflt then Some dflt else limit options)\<rparr>
           in case generateCursorQuery qm options' of
                Inl e \<Rightarrow> ([], Inl e)
              | Inr cq \<Rightarrow>
                  (let req = \<lparr>fr_cursor_query = cq,
                              fr_query = (case qry of None \<Rightarrow> [] | Some q \<Rightarrow> q),
                              fr_projection = proj,
                              fr_sort = srt,
                              fr_limit = (if unl then Fin 0 else js_plus_one (limit options')),
                              fr_populate = (case pop of None \<Rightarrow> [] | Some p \<Rightarrow> p)\<rparr>
                   in case find_exec st req of
                        Inl e \<Rightarrow> ([Find req], Inl e)
                      | Inr ds \<Rightarrow>
                          (if plugin_flag dontReturnTotalDocs po
                           then ([Find req], snd (prepareResponse enc inherited ds options' None))
                           else (case countDocuments_exec st qry of
                                   Inl e \<Rightarrow> ([Find req, CountDocuments qry], Inl e)
                                 | Inr n \<Rightarrow>
                                     ([Find req, CountDocuments qry],
                                      snd (prepareResponse enc inherited ds options' (Some n))))))))"

text \<open>\<open>aggregatePaged(options, _pipeline, _options)\<close>. The stage limit is computed
  from \<open>options.limit\<close> as the caller passed it; \<open>options.limit\<close> is overwritten
  afterwards. \<open>_pipeline.pipeline()\<close> on a missing pipeline and \<open>totalCount[0].count\<close>
  on an empty \<open>totalCount\<close> throw a TypeError.\<close>

definition aggregatePaged ::
  "(jsval list \<Rightarrow> string) \<Rightarrow> (jsval \<Rightarrow> string \<Rightarrow> jsval) \<Rightarrow> query_module \<Rightarrow> store
     \<Rightarrow> plugin_options option
     \<Rightarrow> paginate_options \<Rightarrow> jsval list option
     \<Rightarrow> store_call list \<times> (js_error + paginate_result)" where
  "aggregatePaged enc inherited qm st po options pipeline =
     (let dflt = defaultLimit_of po;
          useDflt = useDefaultLimit po (limit options);
          unl = unlimited po (limit options);
          countDocs = plugin_flag dontReturnTotalDocs po
      in case generateCursorQuery qm options of
           Inl e \<Rightarrow> ([], Inl e)
         | Inr match \<Rightarrow>
             (let shouldSkip = (match \<noteq> []);
                  lim = (if unl then Fin 0 else js_plus_one (limit options))
              in case generateSort qm options of
                   Inl e \<Rightarrow> ([], Inl e)
                 | Inr srt \<Rightarrow>
                     (let options' =
                            options\<lparr>limit := (if useDflt then Some dflt else limit options)\<rparr>
                      in case pipeline of
                           None \<Rightarrow> ([], Inl TypeError)
                         | Some user \<Rightarrow>
                             (if countDocs
                              then (let pl = SortStage srt # map PipelineStage user
                                               @ [FacetStage
                                                    ((if shouldSkip then [MatchStage match] else [])
                                                       @ [LimitStage lim])
                                                    [CountStage ''count'']]
                                    in case facet_exec st pl of
                                         Inl e \<Rightarrow> ([Aggregate pl], Inl e)
                                       | Inr reply \<Rightarrow>
                                           (case totalCount reply of
                                              [] \<Rightarrow> ([Aggregate pl], Inl TypeError)
                                            | c # _ \<Rightarrow>
                                                ([Aggregate pl],
                                                 snd (prepareResponse enc inherited (results reply)
                                                        options' (Some c)))))
                              else (let pl = SortStage srt # map PipelineStage user
                                               @ (if shouldSkip then [MatchStage match] else [])
                                               @ [LimitStage lim]
                                    in case aggregate_exec st pl of
                                         Inl e \<Rightarrow> ([Aggregate pl], Inl e)
                                       | Inr ds \<Rightarrow>
                                           ([Aggregate pl],
                                            snd (prepareResponse enc inherited ds options' None)))))))"

section \<open>Cursor codec (utils/bsonUrlEncoding.ts)\<close>

text \<open>Modelled from the spec: the codec's source is not among the sources, so it is
  written from the spec's description: \<open>encode\<close> takes an ordered sequence of typed
  scalars (integers, floating point, strings, date/time instants, unique identifiers,
  null), serialises it losslessly and applies a URL-safe textual transform; \<open>decode\<close>
  recovers each value with its type or fails with \<open>MalformedCursor\<close>. A floating-point
  number is its 64-bit IEEE pattern, a date its milliseconds since the epoch, an
  identifier its 96 bits.\<close>

datatype cursor_value =
    VInt int
  | VFloat "64 word"
  | VString string
  | VDate int
  | VObjectId "96 word"
  | VNull

text \<open>Modelled from the spec: the lossless serialisation. A natural number is its
  base-256 digits, least significant first.\<close>

fun nat_bytes :: "nat \<Rightarrow> char list" where
  "nat_bytes n = (if n = 0 then [] else char_of (n mod 256) # nat_bytes (n div 256))"

declare nat_bytes.simps [simp del]

fun bytes_nat :: "char list \<Rightarrow> nat" where
  "bytes_nat [] = 0"
| "bytes_nat (b # bs) = of_char b + 256 * bytes_nat bs"

text \<open>Modelled from the spec: every value keeps its type as a tag byte; the sign of an
  integer or a date is part of the tag.\<close>

definition value_tag :: "cursor_value \<Rightarrow> char" where
  "value_tag v =
     (case v of
        VInt n \<Rightarrow> (if 0 \<le> n then CHR ''P'' else CHR ''M'')
      | VFloat w \<Rightarrow> CHR ''F''
      | VString s \<Rightarrow> CHR ''S''
      | VDate n \<Rightarrow> (if 0 \<le> n then CHR ''D'' else CHR ''E'')
      | VObjectId w \<Rightarrow> CHR ''O''
      | VNull \<Rightarrow> CHR ''N'')"

definition value_payload :: "cursor_value \<Rightarrow> char list" where
  "value_payload v =
     (case v of
        VInt n \<Rightarrow> nat_bytes (nat \<bar>n\<bar>)
      | VFloat w \<Rightarrow> nat_bytes (unat w)
      | VString s \<Rightarrow> s
      | VDate n \<Rightarrow> nat_bytes (nat \<bar>n\<bar>)
      | VObjectId w \<Rightarrow> nat_bytes (unat w)
      | VNull \<Rightarrow> [])"

text \<open>Modelled from the spec: a payload is framed so that values of any length can
  follow one another: each payload byte is preceded by the byte 1, and the byte 0 ends
  the payload.\<close>

definition framed :: "char list \<Rightarrow> char list" where
  "framed payload = concat (map (\<lambda>b. [CHR 0x01, b]) payload) @ [CHR 0x00]"

definition serialise :: "cursor_value list \<Rightarrow> char list" where
  "serialise vs = concat (map (\<lambda>v. value_tag v # framed (value_payload v)) vs)"

text \<open>Modelled from the spec: the URL-safe textual transform writes every byte as two
  lower-case hexadecimal digits.\<close>

definition hex_digit :: "nat \<Rightarrow> char" where
  "hex_digit d = (if d < 10 then char_of (48 + d) else char_of (87 + d))"

definition url_text :: "char list \<Rightarrow> string" where
  "url_text bs = concat (map (\<lambda>b. [hex_digit (of_char b div 16), hex_digit (of_char b mod 16)]) bs)"

text \<open>Modelled from the spec: \<open>encode(values)\<close> is the serialisation followed by the
  textual transform.\<close>

definition encode :: "cursor_value list \<Rightarrow> string" where
  "encode vs = url_text (serialise vs)"

text \<open>Modelled from the spec: reading the text back; a character that is no
  hexadecimal digit, or an odd number of digits, is malformed.\<close>

definition hex_value :: "char \<Rightarrow> nat option" where
  "hex_value c =
     (let k = of_char c :: nat in
      if 48 \<le> k \<and> k < 58 then Some (k - 48)
      else if 97 \<le> k \<and> k < 103 then Some (k - 87)
      else None)"

fun url_bytes :: "string \<Rightarrow> char list option" where
  "url_bytes [] = Some []"
| "url_bytes [c] = None"
| "url_bytes (h # l # cs) =
     (case (hex_value h, hex_value l) of
        (Some a, Some b) \<Rightarrow> map_option (Cons (char_of (16 * a + b))) (url_bytes cs)
      | _ \<Rightarrow> None)"

text \<open>Modelled from the spec: reading one framed payload, with what follows it.\<close>

fun unframe :: "char list \<Rightarrow> (char list \<times> char list) option" where
  "unframe [] = None"
| "unframe (m # rest) =
     (if m = CHR 0x00 then Some ([], rest)
      else if m = CHR 0x01
      then (case rest of
              [] \<Rightarrow> None
            | b # rest' \<Rightarrow> map_option (apfst (Cons b)) (unframe rest'))
      else None)"

text \<open>Modelled from the spec: the value a tag and a payload stand for; an unknown tag
  is a type the decoder cannot interpret.\<close>

definition value_of :: "char \<Rightarrow> char list \<Rightarrow> cursor_value option" where
  "value_of t payload =
     (if t = CHR ''P'' then Some (VInt (int (bytes_nat payload)))
      else if t = CHR ''M'' then Some (VInt (- int (bytes_nat payload)))
      else if t = CHR ''F'' then Some (VFloat (of_nat (bytes_nat payload)))
      else if t = CHR ''S'' then Some (VString payload)
      else if t = CHR ''D'' then Some (VDate (int (bytes_nat payload)))
      else if t = CHR ''E'' then Some (VDate (- int (bytes_nat payload)))
      else if t = CHR ''O'' then Some (VObjectId (of_nat (bytes_nat payload)))
      else if t = CHR ''N'' \<and> payload = [] then Some VNull
      else None)"

lemma unframe_shorter:
  "unframe bs = Some (payload, rest) \<Longrightarrow> length rest < length bs"
  by (induction bs arbitrary: payload rest rule: unframe.induct)
     (fastforce split: if_splits list.splits)+

text \<open>Modelled from the spec: reading the values one after the other; a truncated
  frame or an unknown tag is malformed.\<close>

function parse_values :: "char list \<Rightarrow> js_error + cursor_value list" where
  "parse_values [] = Inr []"
| "parse_values (t # bs) =
     (case unframe bs of
        None \<Rightarrow> Inl MalformedCursor
      | Some (payload, rest) \<Rightarrow>
          (case value_of t payload of
             None \<Rightarrow> Inl MalformedCursor
           | Some v \<Rightarrow> map_sum id (Cons v) (parse_values rest)))"
  by pat_completeness auto
termination
  by (relation "measure length") (auto dest: unframe_shorter)

text \<open>Modelled from the spec: \<open>decode(token)\<close>, the values or \<open>MalformedCursor\<close>.\<close>

definition decode :: "string \<Rightarrow> js_error + cursor_value list" where
  "decode token =
     (case url_bytes token of
        None \<Rightarrow> Inl MalformedCursor
      | Some bs \<Rightarrow> parse_values bs)"

section \<open>Auxiliary definitions for the properties\<close>

text \<open>Modelled from the spec: the effective sort key list of the sort planner
  (\<open>generateSort\<close> in \<open>query.ts\<close>, which is not among the sources): the caller's sort
  entries in order, with the identifier field appended last if not already present.\<close>

definition effective_sort_keys :: "sort_options \<Rightarrow> string list" where
  "effective_sort_keys so =
     (if ''_id'' \<in> set (map fst so) then map fst so else map fst so @ [''_id''])"

text \<open>The spec's reading of a dotted field path, to compare \<open>prepareCursor\<close> with: the
  key is read once from left to right; every dot closes a segment, whose name is looked
  up in the value reached so far, and the end of the key closes the last segment.
  Looking a name up in \<open>undefined\<close> or \<open>null\<close> gives \<open>undefined\<close>.\<close>

fun spec_dotted_from ::
  "(jsval \<Rightarrow> string \<Rightarrow> jsval) \<Rightarrow> string \<Rightarrow> string \<Rightarrow> jsval \<Rightarrow> jsval" where
  "spec_dotted_from inherited seg [] v =
     (if nullish v then JUndefined else read_prop inherited v seg)"
| "spec_dotted_from inherited seg (c # cs) v =
     (if c = CHR ''.''
      then spec_dotted_from inherited [] cs
             (if nullish v then JUndefined else read_prop inherited v seg)
      else spec_dotted_from inherited (seg @ [c]) cs v)"

definition spec_dotted_value ::
  "(jsval \<Rightarrow> string \<Rightarrow> jsval) \<Rightarrow> string \<Rightarrow> jsval \<Rightarrow> jsval" where
  "spec_dotted_value inherited key doc = spec_dotted_from inherited [] key doc"

text \<open>A stand-in for the encoder where a property is evaluated on concrete documents:
  one character per encoded value.\<close>

definition sample_encode :: "jsval list \<Rightarrow> string" where
  "sample_encode vs = replicate (length vs) (CHR ''c'')"

text \<open>For concrete evaluations on plain objects: nothing is inherited.\<close>

definition no_inherited :: "jsval \<Rightarrow> string \<Rightarrow> jsval" where
  "no_inherited v p = JUndefined"

text \<open>A query module and a store for concrete evaluations: no cursor filter, sorting
  by \<open>_id\<close>, and a collection of three documents that every fetch returns whole.\<close>

definition sample_docs :: "jsval list" where
  "sample_docs = [JObject [(''_id'', JNum (Fin 1))], JObject [(''_id'', JNum (Fin 2))],
                  JObject [(''_id'', JNum (Fin 3))]]"

definition sample_query_module :: query_module where
  "sample_query_module =
     \<lparr>generateCursorQuery = (\<lambda>options. Inr []),
      generateSort = (\<lambda>options. Inr [(''_id'', 1)])\<rparr>"

definition sample_store :: store where
  "sample_store =
     \<lparr>find_exec = (\<lambda>req. Inr sample_docs),
      countDocuments_exec = (\<lambda>q. Inr 3),
      aggregate_exec = (\<lambda>pl. Inr sample_docs),
      facet_exec = (\<lambda>pl. Inr \<lparr>results = sample_docs, totalCount = [3]\<rparr>)\<rparr>"

section \<open>Properties of page assembly\<close>

lemma prepareCursor_doc:
  "\<not> nullish d \<Longrightarrow>
     prepareCursor enc inh d so
       = Inr (enc (cursor_values inh d (case so of None \<Rightarrow> [] | Some s \<Rightarrow> s)))"
  by (simp add: prepareCursor_def get_prop_def)

lemma prepareCursor_Inr:
  "prepareCursor enc inh d so = Inr c \<Longrightarrow>
     c = enc (cursor_values inh d (case so of None \<Rightarrow> [] | Some s \<Rightarrow> s))"
  by (auto simp: prepareCursor_def get_prop_def Let_def split: if_splits)

lemma index_js_last: "xs \<noteq> [] \<Longrightarrow> index_js xs (int (length xs) - 1) = last xs"
  by (cases xs rule: rev_cases) (auto simp: index_js_def nth_append)

lemma index_js_first: "xs \<noteq> [] \<Longrightarrow> index_js xs 0 = hd xs"
  by (cases xs) (auto simp: index_js_def)

lemma map_sum_Some_Inr:
  "map_sum id Some x = Inr y \<longleftrightarrow> (\<exists>c. x = Inr c \<and> y = Some c)"
  by (cases x) auto

text \<open>The array after the call: the last element removed on overflow, then reversed
  when \<open>options.previous\<close> is truthy.\<close>

lemma fst_prepareResponse:
  "fst (prepareResponse enc inh B options td) =
     (let trimmed = (if truthy_num (limit options) \<and> length_gt (length B) (limit options)
                     then butlast B else B)
      in if truthy_str (opt_previous options) then rev trimmed else trimmed)"
  by (simp add: prepareResponse_def Let_def)

lemma docs_prepareResponse:
  "snd (prepareResponse enc inh B options td) = Inr r \<Longrightarrow>
     docs r = fst (prepareResponse enc inh B options td)"
  by (auto simp: prepareResponse_def Let_def split: sum.splits if_splits)

lemma prepareResponse_next:
  assumes "snd (prepareResponse enc inh B options td) = Inr r"
  shows "if hasNext r
         then \<exists>c. prepareCursor enc inh (index_js (docs r) (int (length (docs r)) - 1))
                     (sortOptions options) = Inr c \<and> res_next r = Some c
         else res_next r = None"
  using assms
  by (auto simp: prepareResponse_def Let_def map_sum_Some_Inr split: sum.splits if_splits)

lemma prepareResponse_previous:
  assumes "snd (prepareResponse enc inh B options td) = Inr r"
  shows "if hasPrevious r
         then \<exists>c. prepareCursor enc inh (index_js (docs r) 0) (sortOptions options) = Inr c
                     \<and> res_previous r = Some c
         else res_previous r = None"
  using assms
  by (auto simp: prepareResponse_def Let_def map_sum_Some_Inr split: sum.splits if_splits)

text \<open>Assembly completes on every non-empty batch of documents under a positive limit:
  the properties below that speak of an assembled page are about a call that exists.\<close>

lemma prepareResponse_completes:
  assumes "limit options = Some (Fin N)" and "0 < N" and "B \<noteq> []"
    and "\<forall>d \<in> set B. \<not> nullish d"
  shows "\<exists>r. snd (prepareResponse enc inh B options td) = Inr r"
proof -
  define ds where "ds = fst (prepareResponse enc inh B options td)"
  have sub: "set ds \<subseteq> set B"
    by (auto simp: ds_def fst_prepareResponse Let_def dest: in_set_butlastD)
  have ne: "ds \<noteq> []"
    using assms(1,2,3)
    by (cases B rule: rev_cases)
       (auto simp: ds_def fst_prepareResponse Let_def truthy_num_def length_gt_def)
  have "last ds \<in> set B" "hd ds \<in> set B"
    using sub last_in_set [OF ne] hd_in_set [OF ne] by blast+
  then have "\<not> nullish (last ds)" "\<not> nullish (hd ds)"
    using assms(4) by blast+
  then have "\<not> nullish (index_js ds (int (length ds) - 1))" "\<not> nullish (index_js ds 0)"
    using ne by (simp_all add: index_js_last index_js_first)
  then show ?thesis
    unfolding ds_def
    by (auto simp: prepareResponse_def Let_def prepareCursor_doc)
qed

text \<open>Claim C1. For an assembled page under a positive limit \<open>N\<close> and a fetched batch
  \<open>B\<close>: \<open>hasPrevious\<close> holds exactly when \<open>options.next\<close> was supplied, or
  \<open>options.previous\<close> was supplied and \<open>B\<close> has more than \<open>N\<close> documents; \<open>hasNext\<close> holds
  exactly when \<open>options.previous\<close> was supplied or \<open>B\<close> has more than \<open>N\<close> documents. In
  particular \<open>hasPrevious\<close> holds whenever \<open>options.next\<close> was supplied, whatever the
  batch. A cursor counts as supplied when it is a non-empty string, which is how the
  source tests it.\<close>

theorem prepareResponse_flags:
  assumes "limit options = Some (Fin N)" and "0 < N"
    and "prepareResponse enc inh B options td = (B', Inr r)"
  shows "(hasPrevious r \<longleftrightarrow>
            truthy_str (opt_next options)
              \<or> (truthy_str (opt_previous options) \<and> N < int (length B)))
         \<and> (hasNext r \<longleftrightarrow> truthy_str (opt_previous options) \<or> N < int (length B))
         \<and> (truthy_str (opt_next options) \<longrightarrow> hasPrevious r)"
  using assms
  by (auto simp: prepareResponse_def Let_def truthy_num_def length_gt_def
           split: sum.splits if_splits)

theorem prepareResponse_flags_witness:
  "limit \<lparr>limit = Some (Fin 1), sortOptions = None, opt_next = Some ''t'',
           opt_previous = None\<rparr> = Some (Fin 1)
   \<and> (0::int) < 1
   \<and> prepareResponse sample_encode no_inherited
        [JObject [(''_id'', JNum (Fin 1))], JObject [(''_id'', JNum (Fin 2))]]
        \<lparr>limit = Some (Fin 1), sortOptions = None, opt_next = Some ''t'',
          opt_previous = None\<rparr> None
      = ([JObject [(''_id'', JNum (Fin 1))]],
         Inr \<lparr>docs = [JObject [(''_id'', JNum (Fin 1))]], hasPrevious = True,
              hasNext = True, res_next = Some ''c'', res_previous = Some ''c'',
              totalDocs = None\<rparr>)
   \<and> hasPrevious \<lparr>docs = [JObject [(''_id'', JNum (Fin 1))]], hasPrevious = True,
              hasNext = True, res_next = Some ''c'', res_previous = Some ''c'',
              totalDocs = None\<rparr>"
proof -
  let ?o = "\<lparr>limit = Some (Fin 1), sortOptions = None, opt_next = Some ''t'',
             opt_previous = None\<rparr>"
  let ?r = "\<lparr>docs = [JObject [(''_id'', JNum (Fin 1))]], hasPrevious = True,
              hasNext = True, res_next = Some ''c'', res_previous = Some ''c'',
              totalDocs = None\<rparr>"
  have l: "limit ?o = Some (Fin 1)" by simp
  have p: "(0::int) < 1" by simp
  have run: "prepareResponse sample_encode no_inherited
        [JObject [(''_id'', JNum (Fin 1))], JObject [(''_id'', JNum (Fin 2))]] ?o None
      = ([JObject [(''_id'', JNum (Fin 1))]], Inr ?r)"
    by (simp add: prepareResponse_def Let_def truthy_num_def length_gt_def truthy_str_def
          index_js_def prepareCursor_def get_prop_def nullish_def cursor_values_def
          keysExceptId_def sample_encode_def)
  from prepareResponse_flags [OF l p run] have "hasPrevious ?r"
    by (simp add: truthy_str_def)
  with l p run show ?thesis by blast
qed




text \<open>Claim C6. In an assembled page with at least one document, the next cursor is
  present exactly when \<open>hasNext\<close> holds and is then the encoding of the cursor values of
  the last returned document; the previous cursor is present exactly when \<open>hasPrevious\<close>
  holds and is then the encoding of the cursor values of the first returned document.\<close>

theorem prepareResponse_cursors:
  assumes "prepareResponse enc inh B options td = (B', Inr r)" and "docs r \<noteq> []"
  shows "(res_next r \<noteq> None \<longleftrightarrow> hasNext r)
         \<and> (hasNext r \<longrightarrow>
               res_next r = Some (enc (cursor_values inh (last (docs r))
                                   (case sortOptions options of None \<Rightarrow> [] | Some so \<Rightarrow> so))))
         \<and> (res_previous r \<noteq> None \<longleftrightarrow> hasPrevious r)
         \<and> (hasPrevious r \<longrightarrow>
               res_previous r = Some (enc (cursor_values inh (hd (docs r))
                                   (case sortOptions options of None \<Rightarrow> [] | Some so \<Rightarrow> so))))"
proof -
  from assms(1) have run: "snd (prepareResponse enc inh B options td) = Inr r"
    by simp
  have nx: "(res_next r \<noteq> None \<longleftrightarrow> hasNext r)
         \<and> (hasNext r \<longrightarrow>
               res_next r = Some (enc (cursor_values inh (last (docs r))
                                   (case sortOptions options of None \<Rightarrow> [] | Some so \<Rightarrow> so))))"
    using prepareResponse_next [OF run] assms(2)
    by (auto simp: index_js_last dest: prepareCursor_Inr split: if_splits)
  have pv: "(res_previous r \<noteq> None \<longleftrightarrow> hasPrevious r)
         \<and> (hasPrevious r \<longrightarrow>
               res_previous r = Some (enc (cursor_values inh (hd (docs r))
                                   (case sortOptions options of None \<Rightarrow> [] | Some so \<Rightarrow> so))))"
    using prepareResponse_previous [OF run] assms(2)
    by (auto simp: index_js_first dest: prepareCursor_Inr split: if_splits)
  from nx pv show ?thesis by blast
qed

theorem prepareResponse_cursors_witness:
  "prepareResponse sample_encode no_inherited
     [JObject [(''_id'', JNum (Fin 1)), (''age'', JNum (Fin 20))],
      JObject [(''_id'', JNum (Fin 2)), (''age'', JNum (Fin 25))],
      JObject [(''_id'', JNum (Fin 3)), (''age'', JNum (Fin 30))]]
     \<lparr>limit = Some (Fin 2), sortOptions = Some [(''age'', 1)], opt_next = None,
       opt_previous = None\<rparr> None
   = ([JObject [(''_id'', JNum (Fin 1)), (''age'', JNum (Fin 20))],
       JObject [(''_id'', JNum (Fin 2)), (''age'', JNum (Fin 25))]],
      Inr \<lparr>docs = [JObject [(''_id'', JNum (Fin 1)), (''age'', JNum (Fin 20))],
                  JObject [(''_id'', JNum (Fin 2)), (''age'', JNum (Fin 25))]],
           hasPrevious = False, hasNext = True,
           res_next = Some (sample_encode [JNum (Fin 25), JNum (Fin 2)]),
           res_previous = None, totalDocs = None\<rparr>)
   \<and> cursor_values no_inherited (JObject [(''_id'', JNum (Fin 2)), (''age'', JNum (Fin 25))])
        [(''age'', 1)] = [JNum (Fin 25), JNum (Fin 2)]"
proof -
  let ?o = "\<lparr>limit = Some (Fin 2), sortOptions = Some [(''age'', 1)], opt_next = None,
             opt_previous = None\<rparr>"
  let ?d1 = "JObject [(''_id'', JNum (Fin 1)), (''age'', JNum (Fin 20))]"
  let ?d2 = "JObject [(''_id'', JNum (Fin 2)), (''age'', JNum (Fin 25))]"
  let ?d3 = "JObject [(''_id'', JNum (Fin 3)), (''age'', JNum (Fin 30))]"
  let ?r = "\<lparr>docs = [?d1, ?d2], hasPrevious = False, hasNext = True,
             res_next = Some (sample_encode [JNum (Fin 25), JNum (Fin 2)]),
             res_previous = None, totalDocs = None\<rparr>"
  have cv: "cursor_values no_inherited ?d2 [(''age'', 1)] = [JNum (Fin 25), JNum (Fin 2)]"
    by (simp add: cursor_values_def keysExceptId_def nullish_def read_prop_def)
  have run: "prepareResponse sample_encode no_inherited [?d1, ?d2, ?d3] ?o None = ([?d1, ?d2], Inr ?r)"
    by (simp add: prepareResponse_def Let_def truthy_num_def length_gt_def truthy_str_def
          index_js_def prepareCursor_def get_prop_def nullish_def read_prop_def cv)
  have ne: "docs ?r \<noteq> []" by simp
  from prepareResponse_cursors [OF run ne]
  have "res_next ?r = Some (sample_encode (cursor_values no_inherited ?d2 [(''age'', 1)]))"
    by simp
  with run cv show ?thesis by simp
qed

text \<open>Splitting a key at its dots and following the pieces with \<open>R.path\<close> reads the
  key as the spec does.\<close>

lemma split_dot_nonempty: "split_dot cs \<noteq> []"
  by (induction cs) (auto split: list.splits)

lemma path_undefined: "ps \<noteq> [] \<Longrightarrow> path inh ps JUndefined = JUndefined"
  by (cases ps) (simp_all add: nullish_def)

lemma path_split_dot_from:
  "path inh (case split_dot cs of [] \<Rightarrow> [] | w # ws \<Rightarrow> (seg @ w) # ws) v
     = spec_dotted_from inh seg cs v"
proof (induction cs arbitrary: seg v)
  case Nil
  then show ?case by simp
next
  case (Cons c cs)
  obtain w ws where sp: "split_dot cs = w # ws"
    using split_dot_nonempty [of cs] by (cases "split_dot cs") auto
  show ?case
  proof (cases "c = CHR ''.''")
    case True
    define u where "u = (if nullish v then JUndefined else read_prop inh v seg)"
    have ih: "path inh (split_dot cs) u = spec_dotted_from inh [] cs u"
      using Cons [where seg = "[]" and v = u] by (simp add: sp)
    have "path inh (seg # split_dot cs) v = path inh (split_dot cs) u"
      by (simp add: u_def path_undefined split_dot_nonempty)
    moreover have "spec_dotted_from inh seg (c # cs) v = spec_dotted_from inh [] cs u"
      using True by (simp add: u_def)
    ultimately show ?thesis
      using True ih by simp
  next
    case False
    with sp Cons [where seg = "seg @ [c]" and v = v] show ?thesis
      by simp
  qed
qed

lemma path_split_dot: "path inh (split_dot key) doc = spec_dotted_value inh key doc"
proof -
  obtain w ws where sp: "split_dot key = w # ws"
    using split_dot_nonempty [of key] by (cases "split_dot key") auto
  have "path inh (w # ws) doc = spec_dotted_from inh [] key doc"
    using path_split_dot_from [where inh = inh and cs = key and seg = "[]" and v = doc]
    by (simp only: sp list.case append_Nil)
  then show ?thesis
    by (simp only: sp spec_dotted_value_def)
qed

text \<open>Claim C7. For a document and a sort specification, \<open>prepareCursor\<close> encodes the
  following values: for every sort key other than \<open>_id\<close>, in the specification's order,
  the value the key's dotted path leads to in the document, and then, as the last
  element, the document's \<open>_id\<close>; this is so whether or not \<open>_id\<close> is among the sort
  keys, and a missing specification counts as the empty one. So the number of values is
  the number of keys other than \<open>_id\<close> plus one, the key \<open>_id\<close> contributes through the
  last element only, and, the keys of an object being distinct, there are as many
  values as effective sort keys.\<close>

theorem prepareCursor_tuple:
  assumes "\<not> nullish doc"
  shows "prepareCursor enc inh doc (Some so)
           = Inr (enc (map (\<lambda>key. spec_dotted_value inh key doc)
                          (filter (\<lambda>key. key \<noteq> ''_id'') (map fst so))
                        @ [read_prop inh doc ''_id'']))
         \<and> prepareCursor enc inh doc None = Inr (enc [read_prop inh doc ''_id''])
         \<and> cursor_values inh doc so
             = map (\<lambda>key. spec_dotted_value inh key doc)
                   (filter (\<lambda>key. key \<noteq> ''_id'') (map fst so))
                 @ [read_prop inh doc ''_id'']
         \<and> length (cursor_values inh doc so)
             = length (filter (\<lambda>key. key \<noteq> ''_id'') (map fst so)) + 1
         \<and> last (cursor_values inh doc so) = read_prop inh doc ''_id''
         \<and> (distinct (map fst so) \<longrightarrow>
               length (cursor_values inh doc so) = length (effective_sort_keys so))"
proof -
  have tuple: "cursor_values inh doc so
             = map (\<lambda>key. spec_dotted_value inh key doc)
                   (filter (\<lambda>key. key \<noteq> ''_id'') (map fst so))
                 @ [read_prop inh doc ''_id'']"
    by (simp add: cursor_values_def keysExceptId_def path_split_dot)
  have empty: "cursor_values inh doc [] = [read_prop inh doc ''_id'']"
    by (simp add: cursor_values_def keysExceptId_def)
  have len: "distinct (map fst so) \<Longrightarrow>
               length (effective_sort_keys so)
                 = length (filter (\<lambda>key. key \<noteq> ''_id'') (map fst so)) + 1"
  proof (induction so)
    case Nil
    then show ?case by (simp add: effective_sort_keys_def)
  next
    case (Cons a so)
    then show ?case
      by (force simp: effective_sort_keys_def split: if_splits)
  qed
  have some: "prepareCursor enc inh doc (Some so) = Inr (enc (cursor_values inh doc so))"
    using assms by (simp add: prepareCursor_doc)
  have none: "prepareCursor enc inh doc None = Inr (enc (cursor_values inh doc []))"
    using assms by (simp add: prepareCursor_doc)
  show ?thesis
    using len by (simp add: some none empty tuple)
qed

theorem prepareCursor_tuple_witness:
  "\<not> nullish (JObject [(''_id'', JObjectId ''a1''),
                        (''profile'', JObject [(''age'', JNum (Fin 20))]),
                        (''name'', JStr ''bo'')])
   \<and> distinct (map fst [(''name'', 1::int), (''_id'', 1), (''profile.age'', -1)])
   \<and> prepareCursor sample_encode no_inherited
        (JObject [(''_id'', JObjectId ''a1''),
                  (''profile'', JObject [(''age'', JNum (Fin 20))]),
                  (''name'', JStr ''bo'')])
        (Some [(''name'', 1), (''_id'', 1), (''profile.age'', -1)])
      = Inr (sample_encode [JStr ''bo'', JNum (Fin 20), JObjectId ''a1''])
   \<and> cursor_values no_inherited
        (JObject [(''_id'', JObjectId ''a1''),
                  (''profile'', JObject [(''age'', JNum (Fin 20))]),
                  (''name'', JStr ''bo'')])
        [(''name'', 1), (''_id'', 1), (''profile.age'', -1)]
      = [JStr ''bo'', JNum (Fin 20), JObjectId ''a1'']
   \<and> effective_sort_keys [(''name'', 1), (''_id'', 1), (''profile.age'', -1)]
      = [''name'', ''_id'', ''profile.age'']"
proof -
  let ?doc = "JObject [(''_id'', JObjectId ''a1''),
                       (''profile'', JObject [(''age'', JNum (Fin 20))]),
                       (''name'', JStr ''bo'')]"
  let ?so = "[(''name'', 1::int), (''_id'', 1), (''profile.age'', -1)]"
  have n: "\<not> nullish ?doc" by (simp add: nullish_def)
  have d: "distinct (map fst ?so)" by simp
  have ek: "effective_sort_keys ?so = [''name'', ''_id'', ''profile.age'']"
    by (simp add: effective_sort_keys_def)
  have v1: "spec_dotted_value no_inherited ''name'' ?doc = JStr ''bo''"
    by (simp add: spec_dotted_value_def nullish_def read_prop_def)
  have v2: "spec_dotted_value no_inherited ''profile.age'' ?doc = JNum (Fin 20)"
    by (simp add: spec_dotted_value_def nullish_def read_prop_def)
  have v3: "read_prop no_inherited ?doc ''_id'' = JObjectId ''a1''"
    by (simp add: read_prop_def)
  note t = prepareCursor_tuple [OF n, where enc = sample_encode and inh = no_inherited
                                  and so = ?so]
  from t have run: "prepareCursor sample_encode no_inherited ?doc (Some ?so)
                      = Inr (sample_encode [JStr ''bo'', JNum (Fin 20), JObjectId ''a1''])"
    by (simp add: v1 v2 v3)
  from t have cv: "cursor_values no_inherited ?doc ?so
                     = [JStr ''bo'', JNum (Fin 20), JObjectId ''a1'']"
    by (simp add: v1 v2 v3)
  from n d run cv ek show ?thesis by blast
qed

text \<open>Claim C9, as the code has it. \<open>prepareResponse\<close> works in place on the array it is
  given. After the call the array is the batch without its last element when overflow
  was detected, and this reversed when \<open>options.previous\<close> was supplied; the returned
  \<open>docs\<close> is that array; the array is as the caller passed it when neither applies. The
  array is the only thing the call changes.\<close>

theorem prepareResponse_in_place:
  "fst (prepareResponse enc inh B options td)
     = (if truthy_str (opt_previous options)
        then rev (if truthy_num (limit options) \<and> length_gt (length B) (limit options)
                  then butlast B else B)
        else (if truthy_num (limit options) \<and> length_gt (length B) (limit options)
              then butlast B else B))
   \<and> (\<forall>r. snd (prepareResponse enc inh B options td) = Inr r \<longrightarrow>
        docs r = fst (prepareResponse enc inh B options td))
   \<and> (truthy_num (limit options) \<and> length_gt (length B) (limit options)
        \<and> \<not> truthy_str (opt_previous options) \<longrightarrow>
        fst (prepareResponse enc inh B options td) = butlast B)
   \<and> (truthy_num (limit options) \<and> length_gt (length B) (limit options)
        \<and> truthy_str (opt_previous options) \<longrightarrow>
        fst (prepareResponse enc inh B options td) = rev (butlast B))
   \<and> (\<not> (truthy_num (limit options) \<and> length_gt (length B) (limit options))
        \<and> truthy_str (opt_previous options) \<longrightarrow>
        fst (prepareResponse enc inh B options td) = rev B)
   \<and> (\<not> (truthy_num (limit options) \<and> length_gt (length B) (limit options))
        \<and> \<not> truthy_str (opt_previous options) \<longrightarrow>
        fst (prepareResponse enc inh B options td) = B)"
  by (auto simp: fst_prepareResponse Let_def dest: docs_prepareResponse)

theorem prepareResponse_in_place_witness:
  "snd (prepareResponse sample_encode no_inherited
          [JObject [(''_id'', JNum (Fin 3))], JObject [(''_id'', JNum (Fin 2))],
           JObject [(''_id'', JNum (Fin 1))]]
          \<lparr>limit = Some (Fin 2), sortOptions = None, opt_next = None,
            opt_previous = Some ''p''\<rparr> None)
     = Inr \<lparr>docs = [JObject [(''_id'', JNum (Fin 2))], JObject [(''_id'', JNum (Fin 3))]],
            hasPrevious = True, hasNext = True, res_next = Some ''c'',
            res_previous = Some ''c'', totalDocs = None\<rparr>
   \<and> fst (prepareResponse sample_encode no_inherited
          [JObject [(''_id'', JNum (Fin 3))], JObject [(''_id'', JNum (Fin 2))],
           JObject [(''_id'', JNum (Fin 1))]]
          \<lparr>limit = Some (Fin 2), sortOptions = None, opt_next = None,
            opt_previous = Some ''p''\<rparr> None)
     = [JObject [(''_id'', JNum (Fin 2))], JObject [(''_id'', JNum (Fin 3))]]
   \<and> fst (prepareResponse sample_encode no_inherited
          [JObject [(''_id'', JNum (Fin 1))], JObject [(''_id'', JNum (Fin 2))],
           JObject [(''_id'', JNum (Fin 3))]]
          \<lparr>limit = Some (Fin 2), sortOptions = None, opt_next = None,
            opt_previous = None\<rparr> None)
     = [JObject [(''_id'', JNum (Fin 1))], JObject [(''_id'', JNum (Fin 2))]]
   \<and> fst (prepareResponse sample_encode no_inherited
          [JObject [(''_id'', JNum (Fin 2))], JObject [(''_id'', JNum (Fin 1))]]
          \<lparr>limit = Some (Fin 2), sortOptions = None, opt_next = None,
            opt_previous = Some ''p''\<rparr> None)
     = [JObject [(''_id'', JNum (Fin 1))], JObject [(''_id'', JNum (Fin 2))]]
   \<and> fst (prepareResponse sample_encode no_inherited
          [JObject [(''_id'', JNum (Fin 1))]]
          \<lparr>limit = Some (Fin 2), sortOptions = None, opt_next = None,
            opt_previous = None\<rparr> None)
     = [JObject [(''_id'', JNum (Fin 1))]]"
proof -
  let ?bwd = "\<lparr>limit = Some (Fin 2), sortOptions = None, opt_next = None,
                 opt_previous = Some ''p''\<rparr>"
  let ?fwd = "\<lparr>limit = Some (Fin 2), sortOptions = None, opt_next = None,
                opt_previous = None\<rparr>"
  let ?B3 = "[JObject [(''_id'', JNum (Fin 3))], JObject [(''_id'', JNum (Fin 2))],
              JObject [(''_id'', JNum (Fin 1))]]"
  let ?F3 = "[JObject [(''_id'', JNum (Fin 1))], JObject [(''_id'', JNum (Fin 2))],
              JObject [(''_id'', JNum (Fin 3))]]"
  let ?B2 = "[JObject [(''_id'', JNum (Fin 2))], JObject [(''_id'', JNum (Fin 1))]]"
  let ?r = "\<lparr>docs = [JObject [(''_id'', JNum (Fin 2))], JObject [(''_id'', JNum (Fin 3))]],
            hasPrevious = True, hasNext = True, res_next = Some ''c'',
            res_previous = Some ''c'', totalDocs = None\<rparr>"
  have run: "snd (prepareResponse sample_encode no_inherited ?B3 ?bwd None) = Inr ?r"
    by (simp add: prepareResponse_def Let_def truthy_num_def length_gt_def truthy_str_def
          index_js_def prepareCursor_def get_prop_def nullish_def cursor_values_def
          keysExceptId_def sample_encode_def)
  from prepareResponse_in_place
         [where enc = sample_encode and inh = no_inherited and B = ?B3 and options = ?bwd
            and td = None] run
  have a: "fst (prepareResponse sample_encode no_inherited ?B3 ?bwd None) = docs ?r"
    by metis
  from prepareResponse_in_place
         [where enc = sample_encode and inh = no_inherited and B = ?F3 and options = ?fwd
            and td = None]
  have b: "fst (prepareResponse sample_encode no_inherited ?F3 ?fwd None)
             = [JObject [(''_id'', JNum (Fin 1))], JObject [(''_id'', JNum (Fin 2))]]"
    by (simp add: truthy_num_def length_gt_def truthy_str_def)
  from prepareResponse_in_place
         [where enc = sample_encode and inh = no_inherited and B = ?B2 and options = ?bwd
            and td = None]
  have c: "fst (prepareResponse sample_encode no_inherited ?B2 ?bwd None)
             = [JObject [(''_id'', JNum (Fin 1))], JObject [(''_id'', JNum (Fin 2))]]"
    by (simp add: truthy_num_def length_gt_def truthy_str_def)
  from prepareResponse_in_place
         [where enc = sample_encode and inh = no_inherited
            and B = "[JObject [(''_id'', JNum (Fin 1))]]" and options = ?fwd and td = None]
  have d: "fst (prepareResponse sample_encode no_inherited
                  [JObject [(''_id'', JNum (Fin 1))]] ?fwd None)
             = [JObject [(''_id'', JNum (Fin 1))]]"
    by (simp add: truthy_num_def length_gt_def truthy_str_def)
  from run a b c d show ?thesis by simp
qed

text \<open>The claim as stated fails: a batch of two documents assembled under limit 1
  leaves the caller's array with its first document only.\<close>

theorem prepareResponse_batch_changed:
  "fst (prepareResponse sample_encode no_inherited
          [JObject [(''_id'', JNum (Fin 1))], JObject [(''_id'', JNum (Fin 2))]]
          \<lparr>limit = Some (Fin 1), sortOptions = None, opt_next = None, opt_previous = None\<rparr>
          None)
     = [JObject [(''_id'', JNum (Fin 1))]]
   \<and> fst (prepareResponse sample_encode no_inherited
          [JObject [(''_id'', JNum (Fin 1))], JObject [(''_id'', JNum (Fin 2))]]
          \<lparr>limit = Some (Fin 1), sortOptions = None, opt_next = None, opt_previous = None\<rparr>
          None)
     \<noteq> [JObject [(''_id'', JNum (Fin 1))], JObject [(''_id'', JNum (Fin 2))]]"
  by (simp add: prepareResponse_def Let_def truthy_num_def length_gt_def truthy_str_def)

text \<open>Claim C10, where the code departs from it. With an empty batch and
  \<open>options.next\<close> supplied, \<open>hasPrevious\<close> is set, \<open>docs[0]\<close> is \<open>undefined\<close>, and the read
  of its \<open>_id\<close> throws: no page is returned. The same happens with \<open>options.previous\<close>
  supplied, where \<open>hasNext\<close> is set and \<open>docs[docs.length - 1]\<close> is \<open>undefined\<close>.\<close>

theorem prepareResponse_empty_batch_throws:
  "prepareResponse enc inh []
     \<lparr>limit = Some (Fin 10), sortOptions = None, opt_next = Some ''abc'',
       opt_previous = None\<rparr> None = ([], Inl TypeError)
   \<and> prepareResponse enc inh []
     \<lparr>limit = Some (Fin 10), sortOptions = None, opt_next = None,
       opt_previous = Some ''abc''\<rparr> None = ([], Inl TypeError)"
  by (simp add: prepareResponse_def Let_def truthy_num_def length_gt_def truthy_str_def
        index_js_def prepareCursor_def get_prop_def nullish_def)

section \<open>Properties of the plugin's operations\<close>

lemma totalDocs_prepareResponse:
  "snd (prepareResponse enc inh B options td) = Inr r \<Longrightarrow> totalDocs r = td"
  by (auto simp: prepareResponse_def Let_def split: sum.splits if_splits)

text \<open>\<open>findPaged\<close> counts, and attaches the count, exactly when \<open>dontReturnTotalDocs\<close> is
  not set.\<close>

lemma findPaged_totalDocs:
  assumes "snd (findPaged enc inh qm st po options qry proj pop) = Inr r"
  shows "(totalDocs r \<noteq> None \<longleftrightarrow> \<not> plugin_flag dontReturnTotalDocs po)
         \<and> (CountDocuments qry \<in> set (fst (findPaged enc inh qm st po options qry proj pop))
               \<longleftrightarrow> \<not> plugin_flag dontReturnTotalDocs po)"
  using assms
  by (auto simp: findPaged_def Let_def dest!: totalDocs_prepareResponse
           split: sum.splits if_splits)

text \<open>\<open>aggregatePaged\<close> tests the same flag the other way round: the faceted pipeline with
  its \<open>$count\<close> stage runs, and \<open>totalDocs\<close> is attached, exactly when
  \<open>dontReturnTotalDocs\<close> is set.\<close>

lemma aggregatePaged_totalDocs:
  assumes "snd (aggregatePaged enc inh qm st po options pipeline) = Inr r"
  shows "totalDocs r \<noteq> None \<longleftrightarrow> plugin_flag dontReturnTotalDocs po"
  using assms
  by (auto simp: aggregatePaged_def Let_def dest!: totalDocs_prepareResponse
           split: sum.splits if_splits option.splits list.splits)

text \<open>Claim C3, where the code departs from it. With \<open>dontReturnTotalDocs\<close> set,
  \<open>aggregatePaged\<close> runs the faceted pipeline with its \<open>$count\<close> stage and returns
  \<open>totalDocs\<close>; with no plugin options it neither counts nor returns \<open>totalDocs\<close>.
  \<open>findPaged\<close> on the same inputs does the opposite.\<close>

theorem aggregatePaged_totalDocs_inverted:
  "aggregatePaged sample_encode no_inherited sample_query_module sample_store
     (Some \<lparr>dontReturnTotalDocs = Some True, dontAllowUnlimitedResults = None,
            defaultLimit = None\<rparr>)
     \<lparr>limit = Some (Fin 3), sortOptions = None, opt_next = None, opt_previous = None\<rparr>
     (Some [])
   = ([Aggregate [SortStage [(''_id'', 1)],
                  FacetStage [LimitStage (Fin 4)] [CountStage ''count'']]],
      Inr \<lparr>docs = sample_docs, hasPrevious = False, hasNext = False, res_next = None,
           res_previous = None, totalDocs = Some 3\<rparr>)
   \<and> aggregatePaged sample_encode no_inherited sample_query_module sample_store None
     \<lparr>limit = Some (Fin 3), sortOptions = None, opt_next = None, opt_previous = None\<rparr>
     (Some [])
   = ([Aggregate [SortStage [(''_id'', 1)], LimitStage (Fin 4)]],
      Inr \<lparr>docs = sample_docs, hasPrevious = False, hasNext = False, res_next = None,
           res_previous = None, totalDocs = None\<rparr>)
   \<and> findPaged sample_encode no_inherited sample_query_module sample_store
     (Some \<lparr>dontReturnTotalDocs = Some True, dontAllowUnlimitedResults = None,
            defaultLimit = None\<rparr>)
     \<lparr>limit = Some (Fin 3), sortOptions = None, opt_next = None, opt_previous = None\<rparr>
     None None None
   = ([Find \<lparr>fr_cursor_query = [], fr_query = [], fr_projection = None,
             fr_sort = [(''_id'', 1)], fr_limit = Fin 4, fr_populate = []\<rparr>],
      Inr \<lparr>docs = sample_docs, hasPrevious = False, hasNext = False, res_next = None,
           res_previous = None, totalDocs = None\<rparr>)
   \<and> findPaged sample_encode no_inherited sample_query_module sample_store None
     \<lparr>limit = Some (Fin 3), sortOptions = None, opt_next = None, opt_previous = None\<rparr>
     None None None
   = ([Find \<lparr>fr_cursor_query = [], fr_query = [], fr_projection = None,
             fr_sort = [(''_id'', 1)], fr_limit = Fin 4, fr_populate = []\<rparr>,
       CountDocuments None],
      Inr \<lparr>docs = sample_docs, hasPrevious = False, hasNext = False, res_next = None,
           res_previous = None, totalDocs = Some 3\<rparr>)"
  by (simp add: aggregatePaged_def findPaged_def Let_def sample_query_module_def
        sample_store_def plugin_flag_def truthy_flag_def defaultLimit_of_def
        useDefaultLimit_def unlimited_def js_isNaN_def js_negative_def js_is_zero_def
        js_plus_one_def prepareResponse_def truthy_num_def length_gt_def truthy_str_def
        sample_docs_def)

text \<open>\<open>findPaged\<close> replaces a negative or non-numeric limit by the default before it
  fetches: the find request asks for one document more than the default, and the page
  is assembled under the default.\<close>

lemma findPaged_invalid_limit:
  assumes "js_isNaN (limit options) \<or> js_negative (limit options)"
  shows "(\<forall>req. Find req \<in> set (fst (findPaged enc inh qm st po options qry proj pop)) \<longrightarrow>
            fr_limit req = js_plus_one (Some (defaultLimit_of po)))
         \<and> (\<forall>r. snd (findPaged enc inh qm st po options qry proj pop) = Inr r \<longrightarrow>
               (\<exists>ds td. snd (prepareResponse enc inh ds
                                (options\<lparr>limit := Some (defaultLimit_of po)\<rparr>) td) = Inr r))"
proof -
  have u: "useDefaultLimit po (limit options)"
    using assms by (auto simp: useDefaultLimit_def)
  have z: "\<not> unlimited po (limit options)"
    using assms
    by (auto simp: unlimited_def js_is_zero_def js_isNaN_def js_negative_def)
  show ?thesis
    by (auto simp: findPaged_def Let_def u z split: sum.splits if_splits)
qed

text \<open>Claim C4, where the code departs from it. \<open>aggregatePaged\<close> computes the limit of
  its \<open>$limit\<close> stage before it replaces an invalid \<open>options.limit\<close>: a limit of \<open>-5\<close>
  gives the stage limit \<open>-4\<close> and \<open>NaN\<close> gives \<open>NaN\<close>, where the default 10 would give
  11, the limit \<open>findPaged\<close> asks for on the same input.\<close>

theorem aggregatePaged_limit_not_defaulted:
  "fst (aggregatePaged sample_encode no_inherited sample_query_module sample_store None
          \<lparr>limit = Some (Fin (- 5)), sortOptions = None, opt_next = None,
            opt_previous = None\<rparr> (Some []))
     = [Aggregate [SortStage [(''_id'', 1)], LimitStage (Fin (- 4))]]
   \<and> fst (aggregatePaged sample_encode no_inherited sample_query_module sample_store None
          \<lparr>limit = Some NaN, sortOptions = None, opt_next = None,
            opt_previous = None\<rparr> (Some []))
     = [Aggregate [SortStage [(''_id'', 1)], LimitStage NaN]]
   \<and> fst (findPaged sample_encode no_inherited sample_query_module sample_store None
          \<lparr>limit = Some (Fin (- 5)), sortOptions = None, opt_next = None,
            opt_previous = None\<rparr> None None None)
     = [Find \<lparr>fr_cursor_query = [], fr_query = [], fr_projection = None,
              fr_sort = [(''_id'', 1)], fr_limit = Fin 11, fr_populate = []\<rparr>,
        CountDocuments None]"
  by (simp add: aggregatePaged_def findPaged_def Let_def sample_query_module_def
        sample_store_def plugin_flag_def defaultLimit_of_def useDefaultLimit_def
        unlimited_def js_isNaN_def js_negative_def js_is_zero_def js_plus_one_def)

text \<open>\<open>aggregatePaged\<close> under \<open>options.limit = 0\<close> with unlimited results allowed: the
  \<open>$limit\<close> stage carries 0 and the page is assembled under limit 0.\<close>

lemma aggregatePaged_unlimited:
  assumes "limit options = Some (Fin 0)"
    and "\<not> plugin_flag dontAllowUnlimitedResults po"
    and "generateCursorQuery qm options = Inr match"
    and "generateSort qm options = Inr srt"
  shows "fst (aggregatePaged enc inh qm st po options (Some user))
           = [Aggregate (SortStage srt # map PipelineStage user
                @ (if plugin_flag dontReturnTotalDocs po
                   then [FacetStage ((if match \<noteq> [] then [MatchStage match] else [])
                                       @ [LimitStage (Fin 0)])
                           [CountStage ''count'']]
                   else (if match \<noteq> [] then [MatchStage match] else [])
                          @ [LimitStage (Fin 0)]))]"
proof -
  have z: "unlimited po (limit options)"
    using assms(1,2) by (simp add: unlimited_def js_is_zero_def)
  show ?thesis
    using assms(3,4)
    by (simp add: aggregatePaged_def Let_def z split: sum.splits list.splits)
qed

text \<open>Claim C5. With \<open>options.limit = 0\<close> and unlimited results allowed, \<open>findPaged\<close>
  issues its find request with limit 0 (no cap), the page holds the whole fetched batch
  (reversed when paging backward), and \<open>hasNext\<close> holds exactly when \<open>options.previous\<close>
  was supplied; under limit 0 page assembly trims no batch, whatever its size.\<close>

theorem findPaged_unlimited:
  assumes "limit options = Some (Fin 0)"
    and "\<not> plugin_flag dontAllowUnlimitedResults po"
    and "generateSort qm options = Inr srt"
    and "generateCursorQuery qm options = Inr cq"
    and "find_exec st \<lparr>fr_cursor_query = cq,
                        fr_query = (case qry of None \<Rightarrow> [] | Some q \<Rightarrow> q),
                        fr_projection = proj, fr_sort = srt, fr_limit = Fin 0,
                        fr_populate = (case pop of None \<Rightarrow> [] | Some p \<Rightarrow> p)\<rparr> = Inr B"
  shows "fst (findPaged enc inh qm st po options qry proj pop)
           = Find \<lparr>fr_cursor_query = cq,
                   fr_query = (case qry of None \<Rightarrow> [] | Some q \<Rightarrow> q),
                   fr_projection = proj, fr_sort = srt, fr_limit = Fin 0,
                   fr_populate = (case pop of None \<Rightarrow> [] | Some p \<Rightarrow> p)\<rparr>
               # (if plugin_flag dontReturnTotalDocs po then [] else [CountDocuments qry])
         \<and> (\<forall>r. snd (findPaged enc inh qm st po options qry proj pop) = Inr r \<longrightarrow>
               docs r = (if truthy_str (opt_previous options) then rev B else B)
               \<and> (hasNext r \<longleftrightarrow> truthy_str (opt_previous options)))
         \<and> (\<forall>B' td. fst (prepareResponse enc inh B' options td)
                        = (if truthy_str (opt_previous options) then rev B' else B'))"
proof -
  have u: "\<not> useDefaultLimit po (limit options)"
    using assms(1,2)
    by (simp add: useDefaultLimit_def js_isNaN_def js_negative_def)
  have z: "unlimited po (limit options)"
    using assms(1,2) by (simp add: unlimited_def js_is_zero_def)
  have same: "options\<lparr>limit := limit options\<rparr> = options"
    by simp
  have falsy: "\<not> truthy_num (limit options)"
    using assms(1) by (simp add: truthy_num_def)
  have calls: "fst (findPaged enc inh qm st po options qry proj pop)
           = Find \<lparr>fr_cursor_query = cq,
                   fr_query = (case qry of None \<Rightarrow> [] | Some q \<Rightarrow> q),
                   fr_projection = proj, fr_sort = srt, fr_limit = Fin 0,
                   fr_populate = (case pop of None \<Rightarrow> [] | Some p \<Rightarrow> p)\<rparr>
               # (if plugin_flag dontReturnTotalDocs po then [] else [CountDocuments qry])"
    using assms(3,4,5)
    by (simp add: findPaged_def Let_def u z same split: sum.splits)
  have page: "\<forall>r. snd (findPaged enc inh qm st po options qry proj pop) = Inr r \<longrightarrow>
               docs r = (if truthy_str (opt_previous options) then rev B else B)
               \<and> (hasNext r \<longleftrightarrow> truthy_str (opt_previous options))"
    using assms(3,4,5) falsy
    by (auto simp: findPaged_def Let_def u z same prepareResponse_def
             split: sum.splits if_splits)
  have trim: "\<forall>B' td. fst (prepareResponse enc inh B' options td)
                        = (if truthy_str (opt_previous options) then rev B' else B')"
    using falsy by (simp add: fst_prepareResponse)
  from calls page trim show ?thesis by blast
qed

theorem findPaged_unlimited_witness:
  "findPaged sample_encode no_inherited sample_query_module sample_store None
     \<lparr>limit = Some (Fin 0), sortOptions = None, opt_next = None, opt_previous = None\<rparr>
     None None None
   = ([Find \<lparr>fr_cursor_query = [], fr_query = [], fr_projection = None,
             fr_sort = [(''_id'', 1)], fr_limit = Fin 0, fr_populate = []\<rparr>,
       CountDocuments None],
      Inr \<lparr>docs = sample_docs, hasPrevious = False, hasNext = False, res_next = None,
           res_previous = None, totalDocs = Some 3\<rparr>)"
proof -
  let ?o = "\<lparr>limit = Some (Fin 0), sortOptions = None, opt_next = None,
             opt_previous = None\<rparr>"
  let ?r = "\<lparr>docs = sample_docs, hasPrevious = False, hasNext = False, res_next = None,
             res_previous = None, totalDocs = Some 3\<rparr>"
  have l: "limit ?o = Some (Fin 0)" by simp
  have f: "\<not> plugin_flag dontAllowUnlimitedResults None"
    by (simp add: plugin_flag_def)
  have gs: "generateSort sample_query_module ?o = Inr [(''_id'', 1)]"
    by (simp add: sample_query_module_def)
  have gq: "generateCursorQuery sample_query_module ?o = Inr []"
    by (simp add: sample_query_module_def)
  have fe: "find_exec sample_store
              \<lparr>fr_cursor_query = [], fr_query = (case None of None \<Rightarrow> [] | Some q \<Rightarrow> q),
                fr_projection = None, fr_sort = [(''_id'', 1)], fr_limit = Fin 0,
                fr_populate = (case None of None \<Rightarrow> [] | Some p \<Rightarrow> p)\<rparr> = Inr sample_docs"
    by (simp add: sample_store_def)
  have run: "snd (findPaged sample_encode no_inherited sample_query_module sample_store None ?o
                    None None None) = Inr ?r"
    by (simp add: findPaged_def Let_def sample_query_module_def sample_store_def
          plugin_flag_def defaultLimit_of_def useDefaultLimit_def unlimited_def
          js_isNaN_def js_negative_def js_is_zero_def prepareResponse_def truthy_num_def
          truthy_str_def)
  from findPaged_unlimited [where enc = sample_encode, OF l f gs gq fe]
  have "fst (findPaged sample_encode no_inherited sample_query_module sample_store None ?o None None None)
          = [Find \<lparr>fr_cursor_query = [], fr_query = [], fr_projection = None,
                   fr_sort = [(''_id'', 1)], fr_limit = Fin 0, fr_populate = []\<rparr>,
             CountDocuments None]"
    by (simp add: plugin_flag_def)
  with run show ?thesis
    by (simp add: prod_eq_iff)
qed

section \<open>Properties of the cursor codec\<close>

lemma bytes_nat_nat_bytes: "bytes_nat (nat_bytes n) = n"
proof (induction n rule: nat_bytes.induct)
  case (1 n)
  show ?case
  proof (cases "n = 0")
    case True
    then show ?thesis by (simp add: nat_bytes.simps)
  next
    case False
    with 1 have "bytes_nat (nat_bytes (n div 256)) = n div 256" by simp
    with False show ?thesis
      by (subst nat_bytes.simps) simp
  qed
qed

lemma hex_value_digit: "d < 16 \<Longrightarrow> hex_value (hex_digit d) = Some d"
  by (auto simp: hex_value_def hex_digit_def Let_def)

lemma url_bytes_text: "url_bytes (url_text bs) = Some bs"
proof (induction bs)
  case Nil
  then show ?case by (simp add: url_text_def)
next
  case (Cons b bs)
  have small: "(of_char b :: nat) < 256"
    using mod_less_divisor [of 256 "of_char b"] by simp
  then have hi: "of_char b div 16 < (16::nat)"
    by presburger
  have whole: "char_of (16 * (of_char b div 16 :: nat) + of_char b mod 16) = b"
    by simp
  have "url_text (b # bs)
          = hex_digit (of_char b div 16) # hex_digit (of_char b mod 16) # url_text bs"
    by (simp add: url_text_def)
  with Cons hi whole show ?case
    by (simp add: hex_value_digit)
qed

lemma unframe_framed: "unframe (framed payload @ rest) = Some (payload, rest)"
  by (induction payload) (simp_all add: framed_def)

lemma value_of_tag: "value_of (value_tag v) (value_payload v) = Some v"
  by (cases v) (auto simp: value_of_def value_tag_def value_payload_def bytes_nat_nat_bytes)

lemma parse_serialise: "parse_values (serialise vs) = Inr vs"
proof (induction vs)
  case Nil
  then show ?case by (simp add: serialise_def)
next
  case (Cons v vs)
  have "serialise (v # vs) = value_tag v # (framed (value_payload v) @ serialise vs)"
    by (simp add: serialise_def)
  with Cons show ?case
    by (simp add: unframe_framed value_of_tag)
qed

text \<open>Claim C8. Decoding the encoding of a sequence of supported values gives the
  sequence back, each value with its type.\<close>

theorem decode_encode: "decode (encode vs) = Inr vs"
  by (simp add: decode_def encode_def url_bytes_text parse_serialise)


text \<open>The token is URL-safe: it consists of digits and the letters a to f.\<close>

lemma hex_digit_safe: "d < 16 \<Longrightarrow> hex_digit d \<in> set ''0123456789abcdef''"
proof -
  assume "d < 16"
  then have "d = 0 \<or> d = 1 \<or> d = 2 \<or> d = 3 \<or> d = 4 \<or> d = 5 \<or> d = 6 \<or> d = 7
    \<or> d = 8 \<or> d = 9 \<or> d = 10 \<or> d = 11 \<or> d = 12 \<or> d = 13 \<or> d = 14 \<or> d = 15"
    by arith
  then show ?thesis
    by (elim disjE; hypsubst; code_simp)
qed

lemma url_text_safe: "set (url_text bs) \<subseteq> set ''0123456789abcdef''"
proof -
  have "hex_digit (of_char b div 16) \<in> set ''0123456789abcdef''
        \<and> hex_digit (of_char b mod 16) \<in> set ''0123456789abcdef''" for b
  proof -
    have "(of_char b :: nat) < 256"
      using mod_less_divisor [of 256 "of_char b"] by simp
    then have "of_char b div 16 < (16::nat)" "of_char b mod 16 < (16::nat)"
      by presburger+
    then show ?thesis
      using hex_digit_safe by blast
  qed
  then show ?thesis
    unfolding url_text_def by (induction bs) auto
qed

lemma encode_url_safe: "set (encode vs) \<subseteq> set ''0123456789abcdef''"
  by (simp only: encode_def url_text_safe)

end
